theory Spec2Isabelle
  imports Complex_Main
begin

section \<open>Python values used by the notebook\<close>

text \<open>
  The development embeds the functions of the notebook cell
  \<^verbatim>\<open>bigwarp-zarr-to-ometiff.ipynb\<close> that write a pyramidal OME-TIFF:
  \<^verbatim>\<open>_creator\<close>, \<^verbatim>\<open>_make_ome_metadata\<close>, \<^verbatim>\<open>_downsample_image\<close>,
  \<^verbatim>\<open>_tiles_generator\<close> and \<^verbatim>\<open>write_pyramidal_ome_tiff\<close>. A leading underscore is
  not an Isabelle identifier, so it is dropped from the names.

  The notebook defines no exception classes. What fails, fails with a Python builtin
  exception: \<^verbatim>\<open>ValueError\<close> (a zero slice or range step, an argument refused by a
  library), \<^verbatim>\<open>AssertionError\<close> (the \<^verbatim>\<open>assert\<close> of \<^verbatim>\<open>_make_ome_metadata\<close>) or
  \<^verbatim>\<open>OverflowError\<close> (an integer quotient too large for a float); the TIFF library
  also fails with \<^verbatim>\<open>struct.error\<close> (a size that does not fit its field of the file),
  here \<open>StructError\<close>.
\<close>

datatype py_error = ValueError | AssertionError | OverflowError | StructError

text \<open>
  A 2-D numpy array of an unsigned integer dtype is a list of rows of natural numbers.
  Its shape \<open>(H, W)\<close> is stated by \<open>is_plane\<close>; a plane with no rows carries no width.
\<close>

type_synonym plane = "nat list list"

definition is_plane :: "nat \<Rightarrow> nat \<Rightarrow> 'a list list \<Rightarrow> bool" where
  "is_plane H W p = (length p = H \<and> list_all (\<lambda>r. length r = W) p)"

text \<open>
  The dask array \<^verbatim>\<open>img_stack\<close> of shape (channels, y, x): its \<^verbatim>\<open>shape\<close> attribute and
  the planes \<^verbatim>\<open>img_stack[c].compute()\<close>, one per channel. \<open>wf_stack\<close> says that the
  planes are as many and as large as the shape tells.
\<close>

record img_stack =
  shape :: "nat \<times> nat \<times> nat"
  channels :: "plane list"


section \<open>OME metadata\<close>

text \<open>
  The metadata is a Python dict from string keys to a string or, under the key
  \<^verbatim>\<open>'Channel'\<close>, the nested dict \<^verbatim>\<open>{'Name': channel_names}\<close>.
\<close>

datatype md_value = PyStr string | PyList "string list" | PyDict "(string \<times> md_value) list"

type_synonym ome_dict = "string \<rightharpoonup> md_value"

text \<open>\<^verbatim>\<open>def _creator() -> str: return f'zarr-ometiff'\<close>\<close>

definition creator :: string where
  "creator = ''zarr-ometiff''"

text \<open>
  The unit string of the source is the micro sign U+00B5 followed by \<open>m\<close>: two code
  points, both below 256, one \<open>char\<close> each.
\<close>

definition micrometer :: string where
  "micrometer = [CHR 0xB5, CHR ''m'']"

text \<open>
  \<^verbatim>\<open>if channel_names:\<close> on an \<^verbatim>\<open>Optional[List[str]]\<close>: \<^verbatim>\<open>None\<close> and the empty list are
  both false.
\<close>

fun truthy_list :: "'a list option \<Rightarrow> bool" where
  "truthy_list None = False"
| "truthy_list (Some []) = False"
| "truthy_list (Some (x # xs)) = True"

text \<open>
  \<^verbatim>\<open>_make_ome_metadata(img_stack, channel_names, pixel_size_um)\<close>. The pixel sizes are
  Python floats, of which the function only takes \<^verbatim>\<open>str(...)\<close>: the floats are a type
  parameter \<open>'f\<close> and Python's \<^verbatim>\<open>str\<close> on them is the parameter \<open>str\<close>.
  \<^verbatim>\<open>if pixel_size_um:\<close> tests a 2-tuple or \<^verbatim>\<open>None\<close>; a 2-tuple is always true.
  The channel count is \<^verbatim>\<open>img_stack.shape[0]\<close>. The \<^verbatim>\<open>print\<close> calls are left out.
\<close>

definition make_ome_metadata ::
  "('f \<Rightarrow> string) \<Rightarrow> img_stack \<Rightarrow> string list option \<Rightarrow> ('f \<times> 'f) option \<Rightarrow> py_error + ome_dict"
where
  "make_ome_metadata str img_stack channel_names pixel_size_um =
    (let ome_metadata = [''Creator'' \<mapsto> PyStr creator];
         ome_metadata =
           (case pixel_size_um of
              None \<Rightarrow> ome_metadata
            | Some (pixel_size_y_um, pixel_size_x_um) \<Rightarrow>
                ome_metadata(''PhysicalSizeX'' \<mapsto> PyStr (str pixel_size_x_um),
                             ''PhysicalSizeXUnit'' \<mapsto> PyStr micrometer,
                             ''PhysicalSizeY'' \<mapsto> PyStr (str pixel_size_y_um),
                             ''PhysicalSizeYUnit'' \<mapsto> PyStr micrometer))
     in if truthy_list channel_names
        then (case channel_names of
                None \<Rightarrow> Inr ome_metadata
              | Some names \<Rightarrow>
                  if length names = fst (shape img_stack)
                  then Inr (ome_metadata(''Channel'' \<mapsto> PyDict [(''Name'', PyList names)]))
                  else Inl AssertionError)
        else Inr ome_metadata)"

section \<open>Downsampling\<close>

text \<open>
  The ceiling of a quotient of natural numbers, \<^verbatim>\<open>math.ceil(a / b)\<close>. Lemma
  \<open>ceil_div_ceiling\<close> below relates it to the ceiling of the real quotient.
\<close>

definition ceil_div :: "nat \<Rightarrow> nat \<Rightarrow> nat" where
  "ceil_div a b = (a + b - 1) div b"

subsection \<open>Slices with a step\<close>

text \<open>
  \<^verbatim>\<open>xs[::k]\<close> for a positive step: the first element, then the first of what is left
  after skipping \<open>k - 1\<close> more, and so on.
\<close>

fun every_nth :: "nat \<Rightarrow> 'a list \<Rightarrow> 'a list" where
  "every_nth k [] = []"
| "every_nth k (x # xs) = x # every_nth k (drop (k - 1) xs)"

text \<open>
  \<^verbatim>\<open>xs[::step]\<close> for a non-zero step: a negative step starts at the last element and
  walks backwards.
\<close>

definition slice_step :: "int \<Rightarrow> 'a list \<Rightarrow> 'a list" where
  "slice_step step xs =
     (if 0 < step then every_nth (nat step) xs else every_nth (nat (- step)) (rev xs))"

text \<open>
  \<^verbatim>\<open>img[::step, ::step]\<close> on a 2-D array: the rows are sliced, and every kept row is
  sliced. A zero step raises \<^verbatim>\<open>ValueError\<close> (slice step cannot be zero).
\<close>

definition strided :: "'a list list \<Rightarrow> int \<Rightarrow> py_error + 'a list list" where
  "strided img step =
     (if step = 0 then Inl ValueError
      else Inr (map (slice_step step) (slice_step step img)))"

subsection \<open>The library function \<^verbatim>\<open>skimage.transform.downscale_local_mean\<close>\<close>

text \<open>
  The notebook imports \<^verbatim>\<open>downscale_local_mean\<close> from scikit-image; the function is not
  part of the repository. It is modelled after the library's documentation
  (\<^emph>\<open>Down-sample N-dimensional image by local averaging. The image is padded with
  \<^verbatim>\<open>cval\<close> if it is not perfectly divisible by the integer factors\<close>, with
  \<^verbatim>\<open>cval=0\<close> by default) and its implementation \<^verbatim>\<open>block_reduce(image, factors, np.mean, cval)\<close>:
  \<^item> a factor below 1 raises \<^verbatim>\<open>ValueError\<close>;
  \<^item> along each axis of length \<open>n\<close> the array is padded at the end with
    \<^verbatim>\<open>after_width = b - n % b if n % b != 0 else 0\<close> zeros;
  \<^item> the padded array is cut into \<open>b \<times> b\<close> blocks and each block is replaced by its mean.

  The notebook casts the float means back with \<^verbatim>\<open>.astype(img.dtype)\<close>, which truncates.
  For an unsigned integer dtype the mean of a block and its truncation are the sum of the
  block divided by \<open>b * b\<close> in the natural numbers (the block sums of 8- and 16-bit
  images are far below the 53 bits that a float holds exactly), and this is what
  \<open>block_mean\<close> computes.
\<close>

text \<open>\<^verbatim>\<open>image.shape[1]\<close> of a plane given by its rows.\<close>

definition width :: "'a list list \<Rightarrow> nat" where
  "width img = (case img of [] \<Rightarrow> 0 | r # _ \<Rightarrow> length r)"

definition after_width :: "nat \<Rightarrow> nat \<Rightarrow> nat" where
  "after_width n b = (if n mod b \<noteq> 0 then b - n mod b else 0)"

text \<open>\<^verbatim>\<open>np.pad(image, pad_width, mode='constant', constant_values=0)\<close>\<close>

definition pad_plane :: "nat \<Rightarrow> plane \<Rightarrow> plane" where
  "pad_plane b img =
     map (\<lambda>r. r @ replicate (after_width (width img) b) 0) img
     @ replicate (after_width (length img) b)
         (replicate (width img + after_width (width img) b) 0)"

text \<open>
  The sum of the pixels of block \<open>(i, j)\<close>: rows \<open>i * b\<close> to \<open>i * b + b - 1\<close>, columns
  \<open>j * b\<close> to \<open>j * b + b - 1\<close>, as far as the plane has them.
\<close>

definition block_sum :: "nat \<Rightarrow> plane \<Rightarrow> nat \<Rightarrow> nat \<Rightarrow> nat" where
  "block_sum b img i j =
     (\<Sum>r\<leftarrow>take b (drop (i * b) img). sum_list (take b (drop (j * b) r)))"

definition block_mean :: "nat \<Rightarrow> plane \<Rightarrow> plane" where
  "block_mean b img =
     map (\<lambda>i. map (\<lambda>j. block_sum b img i j div (b * b)) [0..<width img div b])
       [0..<length img div b]"

definition downscale_local_mean :: "plane \<Rightarrow> int \<Rightarrow> py_error + plane" where
  "downscale_local_mean img factor =
     (if factor < 1 then Inl ValueError
      else Inr (block_mean (nat factor) (pad_plane (nat factor) img)))"

subsection \<open>\<^verbatim>\<open>_downsample_image\<close>\<close>

text \<open>
  \<^verbatim>\<open>
  if downsample_factor != 1:
      if downsample_method == 'box':
          img = downscale_local_mean(img, (downsample_factor, downsample_factor)).astype(img.dtype)
      else:
          img = img[::downsample_factor, ::downsample_factor]
  return img
  \<close>
\<close>

definition downsample_image :: "plane \<Rightarrow> int \<Rightarrow> string \<Rightarrow> py_error + plane" where
  "downsample_image img downsample_factor downsample_method =
     (if downsample_factor \<noteq> 1
      then if downsample_method = ''box''
           then downscale_local_mean img downsample_factor
           else strided img downsample_factor
      else Inr img)"

section \<open>Tiles\<close>

text \<open>
  \<^verbatim>\<open>for y in range(y, stop, step)\<close> with a positive step, as the loop runs: \<open>y\<close>,
  \<open>y + step\<close>, ... while below \<open>stop\<close>.
\<close>

function range_from :: "nat \<Rightarrow> nat \<Rightarrow> nat \<Rightarrow> nat list" where
  "range_from y stop step =
     (if y < stop \<and> 0 < step then y # range_from (y + step) stop step else [])"
  by pat_completeness auto
termination
  by (relation "measure (\<lambda>(y, stop, step). stop - y)") auto

declare range_from.simps [simp del]

text \<open>
  \<^verbatim>\<open>range(0, stop, step)\<close> for \<open>stop \<ge> 0\<close>: a zero step raises \<^verbatim>\<open>ValueError\<close>, a negative
  step gives the empty range.
\<close>

definition range0 :: "nat \<Rightarrow> int \<Rightarrow> py_error + nat list" where
  "range0 stop step =
     (if step = 0 then Inl ValueError
      else if step < 0 then Inr []
      else Inr (range_from 0 stop (nat step)))"

text \<open>
  The slice \<^verbatim>\<open>image[y:y+h, x:x+w]\<close> for non-negative bounds: it is clipped where the
  plane ends.
\<close>

definition crop :: "'a list list \<Rightarrow> nat \<Rightarrow> nat \<Rightarrow> nat \<Rightarrow> nat \<Rightarrow> 'a list list" where
  "crop img y x h w = map (\<lambda>r. take w (drop x r)) (take h (drop y img))"

text \<open>
  The positions \<open>(y, x)\<close> that the two nested loops of \<^verbatim>\<open>_tiles_generator\<close> visit, in
  the order they visit them:
  \<^verbatim>\<open>
  for y in range(0, image_height, tile_height):
      for x in range(0, image_width, tile_width):
  \<close>
  The inner range is only evaluated when the outer loop has an iteration.
\<close>

definition tile_positions :: "nat \<Rightarrow> nat \<Rightarrow> int \<times> int \<Rightarrow> py_error + (nat \<times> nat) list" where
  "tile_positions H W tile_sizes =
     (case tile_sizes of (tile_height, tile_width) \<Rightarrow>
        (case range0 H tile_height of
           Inl e \<Rightarrow> Inl e
         | Inr ys \<Rightarrow>
             if ys = [] then Inr []
             else (case range0 W tile_width of
                     Inl e \<Rightarrow> Inl e
                   | Inr xs \<Rightarrow> Inr (concat (map (\<lambda>y. map (\<lambda>x. (y, x)) xs) ys)))))"

text \<open>
  The tiles of one plane, \<^verbatim>\<open>yield image[y:y+tile_height, x:x+tile_width].copy()\<close> at every
  position. The generator is modelled by the list of everything it yields; an exception
  raised while it runs is the result \<open>Inl\<close>.
\<close>

definition plane_tiles :: "'a list list \<Rightarrow> int \<times> int \<Rightarrow> py_error + 'a list list list" where
  "plane_tiles img tile_sizes =
     (case tile_sizes of (tile_height, tile_width) \<Rightarrow>
        (case tile_positions (length img) (width img) tile_sizes of
           Inl e \<Rightarrow> Inl e
         | Inr ps \<Rightarrow> Inr (map (\<lambda>(y, x). crop img y x (nat tile_height) (nat tile_width)) ps)))"

text \<open>
  The loop over the channels: every plane is downsampled and cut into tiles, one channel
  after the other.
\<close>

fun tiles_channels :: "plane list \<Rightarrow> int \<times> int \<Rightarrow> int \<Rightarrow> string \<Rightarrow> py_error + plane list" where
  "tiles_channels [] tile_sizes downsample_factor downsample_method = Inr []"
| "tiles_channels (img # rest) tile_sizes downsample_factor downsample_method =
     (case downsample_image img downsample_factor downsample_method of
        Inl e \<Rightarrow> Inl e
      | Inr img' \<Rightarrow>
          (case plane_tiles img' tile_sizes of
             Inl e \<Rightarrow> Inl e
           | Inr ts \<Rightarrow>
               (case tiles_channels rest tile_sizes downsample_factor downsample_method of
                  Inl e \<Rightarrow> Inl e
                | Inr ts' \<Rightarrow> Inr (ts @ ts'))))"

text \<open>
  \<^verbatim>\<open>_tiles_generator(img_stack, tile_sizes, downsample_factor, downsample_method)\<close>:
  \<^verbatim>\<open>for c in range(num_channels): image = img_stack[c].compute() ...\<close>
\<close>

definition tiles_generator :: "img_stack \<Rightarrow> int \<times> int \<Rightarrow> int \<Rightarrow> string \<Rightarrow> py_error + plane list" where
  "tiles_generator img_stack tile_sizes downsample_factor downsample_method =
     tiles_channels (map (\<lambda>c. channels img_stack ! c) [0..<fst (shape img_stack)])
       tile_sizes downsample_factor downsample_method"

subsection \<open>Putting tiles back\<close>

text \<open>
  The notebook has no function that reassembles a plane; the round trip of the
  specification is stated with the assignment \<^verbatim>\<open>canvas[y:y+h, x:x+w] = tile\<close>, where
  \<open>(h, w)\<close> is the shape of the tile, applied to every tile at its position.
\<close>

definition paste_row :: "nat \<Rightarrow> 'a list \<Rightarrow> 'a list \<Rightarrow> 'a list" where
  "paste_row x t row = take x row @ t @ drop (x + length t) row"

definition paste :: "'a list list \<Rightarrow> nat \<times> nat \<Rightarrow> 'a list list \<Rightarrow> 'a list list" where
  "paste canvas pos tile =
     (case pos of (y, x) \<Rightarrow>
        take y canvas
        @ map2 (paste_row x) tile (take (length tile) (drop y canvas))
        @ drop (y + length tile) canvas)"

definition place_tiles ::
  "'a list list \<Rightarrow> ((nat \<times> nat) \<times> 'a list list) list \<Rightarrow> 'a list list" where
  "place_tiles canvas pts = foldl (\<lambda>c (pos, t). paste c pos t) canvas pts"

section \<open>The writer\<close>

subsection \<open>The float quotient \<^verbatim>\<open>math.ceil(h / (2**level))\<close>\<close>

text \<open>
  The writer computes the shape it declares for a level with Python's true division of
  integers, which gives a float (an IEEE double): the exact quotient rounded to 53
  significant bits, to the nearest, ties to even, with gradual underflow down to
  \<open>2^-1074\<close> and then to zero; a quotient that rounds to \<open>2^1024\<close> or more raises
  \<^verbatim>\<open>OverflowError\<close>. \<^verbatim>\<open>math.ceil\<close> of the float is exact.

  \<open>bit_length h\<close> is \<^verbatim>\<open>h.bit_length()\<close>: for \<open>h > 0\<close>, \<open>2^(bit_length h - 1) \<le> h < 2^(bit_length h)\<close>.
\<close>

function bit_length :: "nat \<Rightarrow> nat" where
  "bit_length n = (if n = 0 then 0 else Suc (bit_length (n div 2)))"
  by pat_completeness auto
termination
  by (relation "measure (\<lambda>n. n)") auto

declare bit_length.simps [simp del]

text \<open>The quotient \<open>a / d\<close> rounded to the nearest integer, ties to the even one.\<close>

definition round_half_even_div :: "nat \<Rightarrow> nat \<Rightarrow> nat" where
  "round_half_even_div a d =
     (let q = a div d; r = a mod d
      in if 2 * r < d \<or> (2 * r = d \<and> even q) then q else q + 1)"

text \<open>
  The float \<^verbatim>\<open>h / (2**level)\<close> as a pair \<open>(m, u)\<close> that stands for \<open>m * 2^u\<close>. The quotient
  lies in \<open>[2^e, 2^(e+1))\<close>; the spacing of the doubles there is \<open>2^u\<close> with
  \<open>u = max (e - 52) (-1074)\<close>; \<open>m\<close> is the quotient divided by \<open>2^u\<close>, that is
  \<open>h / 2^(level + u)\<close>, rounded.
\<close>

definition true_div_pow2 :: "nat \<Rightarrow> nat \<Rightarrow> py_error + nat \<times> int" where
  "true_div_pow2 h level =
     (if h = 0 then Inr (0, 0)
      else
        (let e = int (bit_length h) - 1 - int level;
             u = max (e - 52) (- 1074);
             s = int level + u;
             m = (if 0 \<le> s then round_half_even_div h (2 ^ nat s) else h * 2 ^ nat (- s))
         in if 0 \<le> u \<and> 2 ^ 1024 \<le> m * 2 ^ nat u then Inl OverflowError else Inr (m, u)))"

definition math_ceil :: "nat \<times> int \<Rightarrow> nat" where
  "math_ceil x =
     (case x of (m, u) \<Rightarrow> if 0 \<le> u then m * 2 ^ nat u else ceil_div m (2 ^ nat (- u)))"

definition ceil_true_div_pow2 :: "nat \<Rightarrow> nat \<Rightarrow> py_error + nat" where
  "ceil_true_div_pow2 h level =
     (case true_div_pow2 h level of Inl e \<Rightarrow> Inl e | Inr x \<Rightarrow> Inr (math_ceil x))"

subsection \<open>The library class \<^verbatim>\<open>tifffile.TiffWriter\<close>\<close>

text \<open>
  The notebook writes through \<^verbatim>\<open>tifffile.TiffWriter\<close>; the library is not part of the
  repository. The model keeps of it what the notebook's calls depend on:
  \<^item> \<^verbatim>\<open>TiffWriter(pyramid_filename, ome=True, bigtiff=True)\<close> creates the file and writes
    the BigTIFF header: byte order, version 43, offset size 8, a zero word, and the 8-byte
    offset of the first directory, 16 bytes in all;
  \<^item> \<^verbatim>\<open>tif.write(data=..., shape=..., subifds=..., subfiletype=..., tile=..., ...)\<close> checks its
    arguments before it asks the \<^verbatim>\<open>data\<close> generator for a tile, and refuses with
    \<^verbatim>\<open>ValueError\<close>, nothing written: a \<^verbatim>\<open>tile\<close> whose length or width is below 1 or not a
    multiple of 16; a \<^verbatim>\<open>compression\<close> name it does not know; a \<^verbatim>\<open>shape\<close> with a zero in
    it; a negative \<^verbatim>\<open>subifds\<close>. It then packs the tags of the entry, where the image
    length and width and the tile length and width are 32-bit fields: a value of \<open>2^32\<close>
    or more fails with \<^verbatim>\<open>struct.error\<close>, nothing written. An accepted call then pulls
    the tiles from the generator, where an exception raised by the generator propagates,
    and appends one image entry;
  \<^item> leaving the \<^verbatim>\<open>with\<close> block closes the file, also when an exception leaves it.

  Which compression names the library knows depends on its release and on the codecs
  installed with it: the table is the parameter \<open>known_compression\<close>.
  \<^verbatim>\<open>compression=None\<close> asks for no compression and is always accepted.

  The bytes of an image entry are not modelled: a file is its header size, the list of
  the accepted \<^verbatim>\<open>write\<close> calls with their arguments, and whether it is closed. The
  model takes the tiles that the generator yields as the data of the entry; what the
  library does with tiles that do not fit the declared shape is not modelled (the
  notebook declares a non-zero shape other than that of its planes only for a side of
  \<open>2^53\<close> pixels or more). Input and output errors of the operating system are not
  modelled either, nor is exhausted memory: the library holds one tile of the full tile
  shape at a time, and \<^verbatim>\<open>downscale_local_mean\<close> a copy of the plane padded to a multiple
  of the factor.
\<close>

text \<open>
  \<^verbatim>\<open>options = dict(tile=tile_sizes, photometric='minisblack', compression=compression,
  metadata=ome_metadata, software=_creator())\<close>
\<close>

record write_options =
  opt_tile :: "int \<times> int"
  opt_photometric :: string
  opt_compression :: "string option"
  opt_metadata :: ome_dict
  opt_software :: string

text \<open>One accepted \<^verbatim>\<open>tif.write\<close> call: the tiles it was fed and its arguments.\<close>

record tiff_page =
  page_data :: "plane list"
  page_shape :: "nat \<times> nat \<times> nat \<times> nat"
  page_subifds :: "int option"
  page_subfiletype :: "nat option"
  page_options :: write_options

record tiff_file =
  header_bytes :: nat
  pages :: "tiff_page list"
  closed :: bool

text \<open>
  The files, by name, and the names whose parent directories
  \<^verbatim>\<open>Path(name).parent.mkdir(parents=True, exist_ok=True)\<close> has made.
\<close>

record file_system =
  parents_made :: "string list"
  files :: "string \<rightharpoonup> tiff_file"

definition mkdir_parents :: "string \<Rightarrow> file_system \<Rightarrow> file_system" where
  "mkdir_parents pyramid_filename fs = fs\<lparr>parents_made := parents_made fs @ [pyramid_filename]\<rparr>"

definition bigtiff_header_size :: nat where
  "bigtiff_header_size = 16"

text \<open>The file as \<^verbatim>\<open>TiffWriter(...)\<close> leaves it when it returns.\<close>

definition TiffWriter :: tiff_file where
  "TiffWriter = \<lparr>header_bytes = bigtiff_header_size, pages = [], closed = False\<rparr>"

definition tile_shape_ok :: "int \<times> int \<Rightarrow> bool" where
  "tile_shape_ok tile =
     (case tile of (tile_length, tile_width) \<Rightarrow>
        1 \<le> tile_length \<and> 1 \<le> tile_width \<and> tile_length mod 16 = 0 \<and> tile_width mod 16 = 0)"

definition compression_ok :: "(string \<Rightarrow> bool) \<Rightarrow> string option \<Rightarrow> bool" where
  "compression_ok known_compression compression =
     (case compression of None \<Rightarrow> True | Some name \<Rightarrow> known_compression name)"

definition shape_ok :: "nat \<times> nat \<times> nat \<times> nat \<Rightarrow> bool" where
  "shape_ok shp = (case shp of (c, h, w, s) \<Rightarrow> 0 < c \<and> 0 < h \<and> 0 < w \<and> 0 < s)"

definition subifds_ok :: "int option \<Rightarrow> bool" where
  "subifds_ok subifds = (case subifds of None \<Rightarrow> True | Some n \<Rightarrow> 0 \<le> n)"

definition tag_values_ok :: "int \<times> int \<Rightarrow> nat \<times> nat \<times> nat \<times> nat \<Rightarrow> bool" where
  "tag_values_ok tile shp =
     (case tile of (tile_length, tile_width) \<Rightarrow>
        case shp of (c, h, w, s) \<Rightarrow>
          tile_length < 2 ^ 32 \<and> tile_width < 2 ^ 32 \<and> h < 2 ^ 32 \<and> w < 2 ^ 32)"

text \<open>
  \<^verbatim>\<open>tif.write\<close>: the result is the exception, if any, and the file afterwards. The
  argument \<open>data\<close> is what running the generator gives; it is looked at only after the
  checks of the arguments, as the generator's body runs only when the library asks for a
  tile.
\<close>

definition tif_write ::
  "(string \<Rightarrow> bool) \<Rightarrow> tiff_file \<Rightarrow> py_error + plane list \<Rightarrow> nat \<times> nat \<times> nat \<times> nat
     \<Rightarrow> int option \<Rightarrow> nat option \<Rightarrow> write_options \<Rightarrow> py_error option \<times> tiff_file"
where
  "tif_write known_compression tif data shp subifds subfiletype options =
     (if \<not> tile_shape_ok (opt_tile options) then (Some ValueError, tif)
      else if \<not> compression_ok known_compression (opt_compression options)
      then (Some ValueError, tif)
      else if \<not> shape_ok shp then (Some ValueError, tif)
      else if \<not> subifds_ok subifds then (Some ValueError, tif)
      else if \<not> tag_values_ok (opt_tile options) shp then (Some StructError, tif)
      else case data of
             Inl e \<Rightarrow> (Some e, tif)
           | Inr tiles \<Rightarrow>
               (None, tif\<lparr>pages := pages tif @
                  [\<lparr>page_data = tiles, page_shape = shp, page_subifds = subifds,
                    page_subfiletype = subfiletype, page_options = options\<rparr>]\<rparr>))"

text \<open>The end of the \<^verbatim>\<open>with\<close> block: the file is closed and stays on disk.\<close>

definition TiffWriter_exit :: "string \<Rightarrow> tiff_file \<Rightarrow> file_system \<Rightarrow> file_system" where
  "TiffWriter_exit pyramid_filename tif fs =
     fs\<lparr>files := (files fs)(pyramid_filename \<mapsto> tif\<lparr>closed := True\<rparr>)\<rparr>"

subsection \<open>\<^verbatim>\<open>write_pyramidal_ome_tiff\<close>\<close>

text \<open>
  The loop over the sub-resolution levels:
  \<^verbatim>\<open>
  for level in range(1, num_pyramid_levels):
      downsampled_data_shape = math.ceil(image_height / (2**level)), math.ceil(image_width / (2**level))
      downsample_factor = 2**level
      tif.write(data=_tiles_generator(img_stack, tile_sizes, downsample_factor, downsample_method),
                shape=(num_channels, downsampled_data_shape[0], downsampled_data_shape[1], 1),
                dtype=img_stack.dtype, subfiletype=1, **options)
  \<close>
  The declared shape is the ceiling of the float quotient, height first; the factor
  \<^verbatim>\<open>2**level\<close> is an integer. The loop stops at the first exception.
\<close>

fun write_levels ::
  "(string \<Rightarrow> bool) \<Rightarrow> img_stack \<Rightarrow> int \<times> int \<Rightarrow> string \<Rightarrow> write_options \<Rightarrow> nat list
     \<Rightarrow> tiff_file \<Rightarrow> py_error option \<times> tiff_file"
where
  "write_levels known_compression img_stack tile_sizes downsample_method options [] tif
     = (None, tif)"
| "write_levels known_compression img_stack tile_sizes downsample_method options
       (level # levels) tif =
     (case shape img_stack of (num_channels, image_height, image_width) \<Rightarrow>
        (case ceil_true_div_pow2 image_height level of
           Inl e \<Rightarrow> (Some e, tif)
         | Inr downsampled_height \<Rightarrow>
             (case ceil_true_div_pow2 image_width level of
                Inl e \<Rightarrow> (Some e, tif)
              | Inr downsampled_width \<Rightarrow>
                  (let downsampled_data_shape = (downsampled_height, downsampled_width);
                       downsample_factor = 2 ^ level
                   in case tif_write known_compression tif
                             (tiles_generator img_stack tile_sizes downsample_factor
                                downsample_method)
                             (num_channels, fst downsampled_data_shape,
                              snd downsampled_data_shape, 1)
                             None (Some 1) options of
                        (Some e, tif') \<Rightarrow> (Some e, tif')
                      | (None, tif') \<Rightarrow>
                          write_levels known_compression img_stack tile_sizes
                            downsample_method options levels tif'))))"

text \<open>
  \<^verbatim>\<open>write_pyramidal_ome_tiff(img_stack, pyramid_filename, channel_names, pixel_size_um,
  compression, tile_size, max_levels, downsample_method)\<close>, in the order of the source:
  metadata, options, parent directories, \<^verbatim>\<open>TiffWriter\<close>, the write of level 0 with
  \<^verbatim>\<open>subifds=num_pyramid_levels-1\<close>, the loop over the levels from 1. The function has no
  check of its parameters. The result is the exception that leaves the function, if any,
  and the file system afterwards. \<open>str\<close> is Python's \<^verbatim>\<open>str\<close> on floats, as in
  \<open>make_ome_metadata\<close>, and \<open>known_compression\<close> the library's table of compression
  names; the \<^verbatim>\<open>print\<close> calls are left out.
\<close>

definition write_pyramidal_ome_tiff ::
  "('f \<Rightarrow> string) \<Rightarrow> (string \<Rightarrow> bool) \<Rightarrow> img_stack \<Rightarrow> string \<Rightarrow> string list option
     \<Rightarrow> ('f \<times> 'f) option \<Rightarrow> string option \<Rightarrow> int \<Rightarrow> int \<Rightarrow> string \<Rightarrow> file_system
     \<Rightarrow> py_error option \<times> file_system"
where
  "write_pyramidal_ome_tiff str known_compression img_stack pyramid_filename channel_names
       pixel_size_um compression tile_size max_levels downsample_method fs =
     (let num_pyramid_levels = max_levels in
      case make_ome_metadata str img_stack channel_names pixel_size_um of
        Inl e \<Rightarrow> (Some e, fs)
      | Inr ome_metadata \<Rightarrow>
          (let tile_sizes = (tile_size, tile_size);
               options = \<lparr>opt_tile = tile_sizes, opt_photometric = ''minisblack'',
                          opt_compression = compression, opt_metadata = ome_metadata,
                          opt_software = creator\<rparr>
           in case shape img_stack of (num_channels, image_height, image_width) \<Rightarrow>
                (let fs = mkdir_parents pyramid_filename fs;
                     tif = TiffWriter;
                     downsample_factor = 1;
                     (err, tif) =
                       (case tif_write known_compression tif
                               (tiles_generator img_stack tile_sizes downsample_factor
                                  downsample_method)
                               (num_channels, image_height, image_width, 1)
                               (Some (num_pyramid_levels - 1)) None options of
                          (Some e, tif) \<Rightarrow> (Some e, tif)
                        | (None, tif) \<Rightarrow>
                            write_levels known_compression img_stack tile_sizes
                              downsample_method options [1..<nat num_pyramid_levels] tif)
                 in (err, TiffWriter_exit pyramid_filename tif fs))))"

section \<open>Properties of the metadata builder\<close>

lemma truthy_list_Some: "truthy_list (Some xs) = (xs \<noteq> [])"
  by (cases xs) simp_all

text \<open>
  Claim C7, as amended. The claim as written covers every supplied list, the empty one
  included; the code tests \<^verbatim>\<open>if channel_names:\<close>, which the empty list fails. For every
  channel count and every non-empty list of channel names, the builder fails with the
  failed assertion exactly when the length of the list differs from the channel count,
  and when the lengths agree it returns a metadata dict whose key \<^verbatim>\<open>'Channel'\<close> holds
  the names in their order.
\<close>

theorem make_ome_metadata_channel_names:
  assumes "names \<noteq> []" and "shape s = (channel_count, H, W)"
  shows "(make_ome_metadata str s (Some names) ps = Inl AssertionError
            \<longleftrightarrow> length names \<noteq> channel_count)
         \<and> (length names = channel_count \<longrightarrow>
              (\<exists>md. make_ome_metadata str s (Some names) ps = Inr md
                 \<and> md ''Channel'' = Some (PyDict [(''Name'', PyList names)])))"
  using assms by (simp add: make_ome_metadata_def truthy_list_Some Let_def)

theorem make_ome_metadata_channel_names_witness:
  "(make_ome_metadata (\<lambda>x::rat. '''')
       \<lparr>shape = (3, 1, 1), channels = [[[0]], [[0]], [[0]]]\<rparr>
       (Some [''A'', ''B'']) None = Inl AssertionError)
   \<and> (\<exists>md. make_ome_metadata (\<lambda>x::rat. '''')
       \<lparr>shape = (2, 1, 1), channels = [[[0]], [[0]]]\<rparr>
       (Some [''A'', ''B'']) None = Inr md
       \<and> md ''Channel'' = Some (PyDict [(''Name'', PyList [''A'', ''B''])]))"
  using make_ome_metadata_channel_names [of "[''A'', ''B'']"
      "\<lparr>shape = (3, 1, 1), channels = [[[0]], [[0]], [[0]]]\<rparr>" 3 1 1 "\<lambda>x::rat. ''''" None]
    make_ome_metadata_channel_names [of "[''A'', ''B'']"
      "\<lparr>shape = (2, 1, 1), channels = [[[0]], [[0]]]\<rparr>" 2 1 1 "\<lambda>x::rat. ''''" None]
  by simp

text \<open>
  The claim C7 as written fails for the supplied but empty list: with three channels and
  \<^verbatim>\<open>channel_names=[]\<close> the lengths differ and the builder does not fail.
\<close>

theorem make_ome_metadata_empty_names_counterexample:
  "\<not> (make_ome_metadata (\<lambda>x::rat. '''')
        \<lparr>shape = (3, 1, 1), channels = [[[0]], [[0]], [[0]]]\<rparr>
        (Some []) None = Inl AssertionError
      \<longleftrightarrow> length ([] :: string list) \<noteq> 3)"
  by (simp add: make_ome_metadata_def)

text \<open>
  Claim C8. Whenever a metadata dict is built from a present calibration pair
  \<open>(y_um, x_um)\<close>, its key \<^verbatim>\<open>'PhysicalSizeX'\<close> holds \<^verbatim>\<open>str(x_um)\<close>, its key
  \<^verbatim>\<open>'PhysicalSizeY'\<close> holds \<^verbatim>\<open>str(y_um)\<close>, and both unit keys hold the micrometer
  string; and every metadata dict that is built holds the creator string under
  \<^verbatim>\<open>'Creator'\<close>.
\<close>

theorem make_ome_metadata_calibration:
  "(make_ome_metadata str s names (Some (y_um, x_um)) = Inr md \<longrightarrow>
      md ''PhysicalSizeX'' = Some (PyStr (str x_um))
    \<and> md ''PhysicalSizeY'' = Some (PyStr (str y_um))
    \<and> md ''PhysicalSizeXUnit'' = Some (PyStr [CHR 0xB5, CHR ''m''])
    \<and> md ''PhysicalSizeYUnit'' = Some (PyStr [CHR 0xB5, CHR ''m'']))
   \<and> (make_ome_metadata str s names ps = Inr md \<longrightarrow>
        md ''Creator'' = Some (PyStr ''zarr-ometiff''))"
  by (auto simp: make_ome_metadata_def Let_def creator_def micrometer_def
      split: if_splits option.splits)

text \<open>
  The example of the claim: with \<^verbatim>\<open>str(0.25) = '0.25'\<close>, the calibration (0.25, 0.25)
  gives \<^verbatim>\<open>PhysicalSizeX = '0.25'\<close>.
\<close>

theorem make_ome_metadata_calibration_witness:
  "\<exists>md. make_ome_metadata (\<lambda>x::rat. if x = 1 / 4 then ''0.25'' else ''other'')
       \<lparr>shape = (1, 1, 1), channels = [[[0]]]\<rparr>
       (Some [''DAPI'']) (Some (1 / 4, 1 / 4)) = Inr md
     \<and> md ''PhysicalSizeX'' = Some (PyStr ''0.25'')
     \<and> md ''PhysicalSizeY'' = Some (PyStr ''0.25'')
     \<and> md ''PhysicalSizeXUnit'' = Some (PyStr [CHR 0xB5, CHR ''m''])
     \<and> md ''PhysicalSizeYUnit'' = Some (PyStr [CHR 0xB5, CHR ''m''])
     \<and> md ''Creator'' = Some (PyStr ''zarr-ometiff'')"
proof -
  let ?str = "\<lambda>x::rat. if x = 1 / 4 then ''0.25'' else ''other''"
  let ?s = "\<lparr>shape = (1, 1, 1), channels = [[[0]]]\<rparr>"
  obtain md where md: "make_ome_metadata ?str ?s (Some [''DAPI'']) (Some (1 / 4, 1 / 4)) = Inr md"
    by (simp add: make_ome_metadata_def)
  from make_ome_metadata_calibration [of ?str ?s "Some [''DAPI'']" "1 / 4" "1 / 4" md "Some (1 / 4, 1 / 4)"] md
  show ?thesis by simp
qed

text \<open>
  Claim C9. For the empty list of channel names and any channel count, the builder
  returns what it returns for an absent list: it does not fail, and the metadata dict
  has no key \<^verbatim>\<open>'Channel'\<close>.
\<close>

theorem make_ome_metadata_empty_names:
  "make_ome_metadata str s (Some []) ps = make_ome_metadata str s None ps
   \<and> (\<exists>md. make_ome_metadata str s (Some []) ps = Inr md \<and> md ''Channel'' = None)"
  by (simp add: make_ome_metadata_def Let_def split: option.splits)

section \<open>Properties of the downsampler\<close>

subsection \<open>Ceiling division\<close>

lemma ceil_div_cases: "0 < b \<Longrightarrow> ceil_div a b = (if a mod b = 0 then a div b else Suc (a div b))"
proof -
  assume b: "0 < b"
  define r where "r = a mod b"
  define q where "q = a div b"
  define c where "c = b - 1"
  have aq: "a = r + q * b" by (simp add: q_def r_def)
  have rb: "r < b" using b by (simp add: r_def)
  have cb: "c < b" "c + 1 = b" using b by (simp_all add: c_def)
  have "a + b - 1 = (r + c) + q * b" using cb aq by linarith
  then have "(a + b - 1) div b = q + (r + c) div b"
    using b div_mult_self3 [of b "r + c" q] by simp
  moreover have "(r + c) div b = (if r = 0 then 0 else 1)"
  proof (cases "r = 0")
    case True
    then show ?thesis using cb by simp
  next
    case False
    then have "b \<le> r + c" "r + c < 2 * b" using cb rb by linarith+
    then have "(r + c) div b = 1"
      by (intro div_nat_eqI) simp_all
    then show ?thesis using False by simp
  qed
  ultimately show ?thesis by (simp add: ceil_div_def q_def r_def)
qed

lemma ceil_div_ceiling: "0 < b \<Longrightarrow> int (ceil_div a b) = \<lceil>real a / real b\<rceil>"
proof -
  assume b: "0 < b"
  have "\<lceil>real a / real b\<rceil> = \<lceil>real_of_int (int a) / real_of_int (int b)\<rceil>" by simp
  also have "\<dots> = - (- int a div int b)" by (rule ceiling_divide_eq_div)
  also have "\<dots> = int (ceil_div a b)"
  proof (cases "a mod b = 0")
    case True
    then have "int a mod int b = 0" by (metis of_nat_mod of_nat_0)
    then show ?thesis using b True by (simp add: ceil_div_cases zdiv_zminus1_eq_if zdiv_int)
  next
    case False
    then have "int a mod int b \<noteq> 0" by (metis of_nat_mod of_nat_eq_0_iff)
    then show ?thesis using b False by (simp add: ceil_div_cases zdiv_zminus1_eq_if zdiv_int)
  qed
  finally show ?thesis by simp
qed

lemma ceil_div_Suc: "0 < k \<Longrightarrow> ceil_div (Suc n) k = Suc (ceil_div (n - (k - 1)) k)"
  by (cases "k - 1 \<le> n") (simp_all add: ceil_div_def)

lemma less_ceil_div_iff: "0 < k \<Longrightarrow> i < ceil_div n k \<longleftrightarrow> i * k < n"
proof -
  assume k: "0 < k"
  have "i < (n + k - 1) div k \<longleftrightarrow> Suc i * k \<le> n + k - 1"
    using k less_eq_div_iff_mult_less_eq [of k "Suc i" "n + k - 1"] by (simp add: Suc_le_eq)
  also have "\<dots> \<longleftrightarrow> i * k < n" using k by (cases n) auto
  finally show ?thesis by (simp add: ceil_div_def)
qed

lemma after_width_ceil: "0 < b \<Longrightarrow> (n + after_width n b) div b = ceil_div n b"
proof (cases "n mod b = 0")
  case True
  assume "0 < b"
  with True show ?thesis by (simp add: after_width_def ceil_div_cases)
next
  case False
  assume b: "0 < b"
  define r where "r = n mod b"
  define q where "q = n div b"
  have nq: "n = r + q * b" by (simp add: q_def r_def)
  have rb: "r < b" using b by (simp add: r_def)
  have "n + (b - r) = 0 + Suc q * b" using rb nq by simp
  then have "(n + (b - r)) div b = Suc q"
    using b div_mult_self3 [of b 0 "Suc q"] by simp
  then show ?thesis using False b by (simp add: after_width_def ceil_div_cases r_def q_def)
qed

subsection \<open>Planes and strided slices\<close>

lemma is_plane_nth: "is_plane H W p \<longleftrightarrow> length p = H \<and> (\<forall>i<H. length (p ! i) = W)"
  by (auto simp: is_plane_def list_all_length)

lemma is_plane_width: "is_plane H W img \<Longrightarrow> img \<noteq> [] \<Longrightarrow> width img = W"
  by (cases img) (simp_all add: is_plane_def width_def)

lemma is_plane_rev: "is_plane H W img \<Longrightarrow> is_plane H W (map rev (rev img))"
  by (simp add: is_plane_def list_all_iff)

lemma length_every_nth: "0 < k \<Longrightarrow> length (every_nth k xs) = ceil_div (length xs) k"
proof (induction k xs rule: every_nth.induct)
  case (1 k)
  then show ?case by (simp add: ceil_div_def)
next
  case (2 k x xs)
  then show ?case by (simp add: ceil_div_Suc)
qed

lemma nth_every_nth:
  "0 < k \<Longrightarrow> i < length (every_nth k xs) \<Longrightarrow> every_nth k xs ! i = xs ! (i * k)"
proof (induction k xs arbitrary: i rule: every_nth.induct)
  case (1 k)
  then show ?case by simp
next
  case (2 k x xs)
  show ?case
  proof (cases i)
    case 0
    then show ?thesis by simp
  next
    case (Suc j)
    with 2 have j: "j < length (every_nth k (drop (k - 1) xs))" by simp
    then have ne: "drop (k - 1) xs \<noteq> []" by auto
    then have le: "k - 1 \<le> length xs" by simp
    have "every_nth k (drop (k - 1) xs) ! j = drop (k - 1) xs ! (j * k)"
      using 2 j by simp
    also have "\<dots> = xs ! (k - 1 + j * k)" using le by (simp add: nth_drop)
    finally show ?thesis using Suc 2(2) by simp
  qed
qed

lemma every_nth_map: "every_nth k (map f xs) = map f (every_nth k xs)"
  by (induction k xs rule: every_nth.induct) (simp_all add: drop_map)

lemma strided_rows:
  assumes k: "0 < k" and p: "is_plane H W img"
  shows "is_plane (ceil_div H k) (ceil_div W k) (map (every_nth k) (every_nth k img))"
    and "i < ceil_div H k \<Longrightarrow> j < ceil_div W k \<Longrightarrow>
         map (every_nth k) (every_nth k img) ! i ! j = img ! (i * k) ! (j * k)"
proof -
  have len: "length (every_nth k img) = ceil_div H k"
    using k p by (simp add: length_every_nth is_plane_nth)
  have row: "every_nth k img ! i = img ! (i * k)" if "i < ceil_div H k" for i
    using that k len by (simp add: nth_every_nth)
  have rowlen: "length (img ! (i * k)) = W" if "i < ceil_div H k" for i
    using that k p by (simp add: is_plane_nth less_ceil_div_iff)
  show "is_plane (ceil_div H k) (ceil_div W k) (map (every_nth k) (every_nth k img))"
    using k len row rowlen by (simp add: is_plane_nth length_every_nth)
  show "map (every_nth k) (every_nth k img) ! i ! j = img ! (i * k) ! (j * k)"
    if "i < ceil_div H k" "j < ceil_div W k"
    using that k len row rowlen by (simp add: nth_every_nth length_every_nth)
qed

lemma strided_pos:
  "0 < f \<Longrightarrow> strided img f = Inr (map (every_nth (nat f)) (every_nth (nat f) img))"
  by (simp add: strided_def slice_step_def cong: map_cong)

lemma strided_neg:
  "f < 0 \<Longrightarrow> strided img f = Inr (map (every_nth (nat (- f))) (every_nth (nat (- f)) (map rev (rev img))))"
  by (simp add: strided_def slice_step_def every_nth_map cong: map_cong)

subsection \<open>Block means of the zero-padded plane\<close>

lemma block_sum_pad_plane: "block_sum b (pad_plane b img) i j = block_sum b img i j"
  by (simp add: block_sum_def pad_plane_def take_map drop_map comp_def sum_list_replicate)

lemma length_pad_plane: "length (pad_plane b img) = length img + after_width (length img) b"
  by (simp add: pad_plane_def)

lemma width_pad_plane:
  "img \<noteq> [] \<Longrightarrow> width (pad_plane b img) = width img + after_width (width img) b"
  by (cases img) (simp_all add: pad_plane_def width_def)

lemma block_mean_pad_shape:
  assumes b: "0 < b" and p: "is_plane H W img"
  shows "is_plane (ceil_div H b) (ceil_div W b) (block_mean b (pad_plane b img))"
proof (cases "img = []")
  case True
  then have "H = 0" using p by (simp add: is_plane_def)
  then show ?thesis using True b
    by (simp add: block_mean_def pad_plane_def after_width_def is_plane_def ceil_div_cases)
next
  case False
  then have w: "width img = W" using p by (rule is_plane_width [rotated])
  have h: "length img = H" using p by (simp add: is_plane_def)
  show ?thesis using False b w h
    by (simp add: block_mean_def is_plane_nth length_pad_plane width_pad_plane
        after_width_ceil)
qed

lemma block_mean_pad_nth:
  assumes b: "0 < b" and p: "is_plane H W img" and i: "i < ceil_div H b" and j: "j < ceil_div W b"
  shows "block_mean b (pad_plane b img) ! i ! j = block_sum b img i j div (b * b)"
proof -
  have ne: "img \<noteq> []" using i b p by (auto simp: is_plane_def ceil_div_cases)
  have w: "width img = W" using p ne by (rule is_plane_width)
  have h: "length img = H" using p by (simp add: is_plane_def)
  show ?thesis using b i j ne w h
    by (simp add: block_mean_def length_pad_plane width_pad_plane
        after_width_ceil block_sum_pad_plane)
qed

lemma block_sum_uniform:
  "block_sum b (replicate H (replicate W v)) i j = min b (H - i * b) * (min b (W - j * b) * v)"
  by (simp add: block_sum_def sum_list_replicate comp_def)

lemma block_sum_one:
  assumes "is_plane H W img" "i < H" "j < W"
  shows "block_sum (Suc 0) img i j = img ! i ! j"
proof -
  have "take (Suc 0) (drop i img) = [img ! i]"
    using assms by (simp add: is_plane_nth take_Suc hd_drop_conv_nth)
  moreover have "take (Suc 0) (drop j (img ! i)) = [img ! i ! j]"
    using assms by (simp add: is_plane_nth take_Suc hd_drop_conv_nth)
  ultimately show ?thesis by (simp add: block_sum_def)
qed

lemma downsample_image_box:
  "1 \<le> f \<Longrightarrow> f \<noteq> 1 \<Longrightarrow>
   downsample_image img f ''box'' = Inr (block_mean (nat f) (pad_plane (nat f) img))"
  by (simp add: downsample_image_def downscale_local_mean_def)

lemma downsample_image_ok:
  assumes f: "1 \<le> f" and p: "is_plane H W img"
  shows "\<exists>out. downsample_image img f m = Inr out
           \<and> is_plane (ceil_div H (nat f)) (ceil_div W (nat f)) out"
proof (cases "f = 1")
  case True
  then show ?thesis using p by (simp add: downsample_image_def ceil_div_def)
next
  case False
  then have b: "0 < nat f" using f by simp
  show ?thesis
  proof (cases "m = ''box''")
    case True
    then show ?thesis
      using f False block_mean_pad_shape [OF b p] by (simp add: downsample_image_box)
  next
    case nn: False
    then show ?thesis
      using f False strided_rows(1) [OF b p]
      by (simp add: downsample_image_def strided_pos)
  qed
qed

subsection \<open>Block-mean downsampling\<close>

text \<open>
  Claim C1, as amended. The claim as written says that a trailing partial block is
  averaged over the real pixels it contains and that a uniform plane stays uniform for
  every factor; the code calls \<^verbatim>\<open>downscale_local_mean\<close>, which pads the plane with zeros
  and divides every block sum by \<open>factor * factor\<close>. What holds: for every plane of shape
  \<open>(H, W)\<close> and every factor \<open>f \<ge> 1\<close>, block-mean downsampling returns a plane of shape
  \<open>(ceil(H/f), ceil(W/f))\<close> whose pixel \<open>(i, j)\<close> is the sum of the real pixels of block
  \<open>(i, j)\<close> divided by \<open>f * f\<close>, also for a partial block; consequently a plane that
  holds one value \<open>v\<close> everywhere and whose height and width are multiples of \<open>f\<close> is
  mapped to the plane holding \<open>v\<close> everywhere.
\<close>

theorem downsample_box_zero_padded:
  assumes f: "1 \<le> f" and p: "is_plane H W img"
  shows "\<exists>out. downsample_image img f ''box'' = Inr out
           \<and> is_plane (ceil_div H (nat f)) (ceil_div W (nat f)) out
           \<and> (\<forall>i<ceil_div H (nat f). \<forall>j<ceil_div W (nat f).
                 out ! i ! j = block_sum (nat f) img i j div (nat f * nat f))
           \<and> (img = replicate H (replicate W v) \<and> nat f dvd H \<and> nat f dvd W
                 \<longrightarrow> out = replicate (H div nat f) (replicate (W div nat f) v))"
proof (cases "f = 1")
  case True
  have "\<forall>i<H. \<forall>j<W. img ! i ! j = block_sum (Suc 0) img i j"
    using p by (simp add: block_sum_one)
  then show ?thesis using True p
    by (auto simp: downsample_image_def ceil_div_def)
next
  case False
  define b where "b = nat f"
  define out where "out = block_mean b (pad_plane b img)"
  have b: "0 < b" using f by (simp add: b_def)
  have run: "downsample_image img f ''box'' = Inr out"
    using f False by (simp add: downsample_image_box out_def b_def)
  have shape: "is_plane (ceil_div H b) (ceil_div W b) out"
    unfolding out_def using b p by (rule block_mean_pad_shape)
  have px: "\<forall>i<ceil_div H b. \<forall>j<ceil_div W b. out ! i ! j = block_sum b img i j div (b * b)"
    unfolding out_def using b p by (simp add: block_mean_pad_nth)
  have uni: "out = replicate (H div b) (replicate (W div b) v)"
    if u: "img = replicate H (replicate W v)" and dh: "b dvd H" and dw: "b dvd W"
  proof -
    have cH: "ceil_div H b = H div b" and cW: "ceil_div W b = W div b"
      using b dh dw by (simp_all add: ceil_div_cases)
    have val: "out ! i ! j = v" if i: "i < H div b" and j: "j < W div b" for i j
    proof -
      have "Suc i * b \<le> H" using i b dh by (metis Suc_leI dvd_div_mult_self mult_le_mono1)
      then have mi: "min b (H - i * b) = b" by simp
      have "Suc j * b \<le> W" using j b dw by (metis Suc_leI dvd_div_mult_self mult_le_mono1)
      then have mj: "min b (W - j * b) = b" by simp
      have "out ! i ! j = block_sum b img i j div (b * b)" using px i j cH cW by simp
      also have "\<dots> = (b * (b * v)) div (b * b)" by (simp add: u block_sum_uniform mi mj)
      also have "\<dots> = v" using b by (simp flip: mult.assoc)
      finally show ?thesis .
    qed
    have "length out = H div b" using shape cH by (simp add: is_plane_nth)
    moreover have "\<forall>i<H div b. out ! i = replicate (W div b) v"
    proof (intro allI impI)
      fix i assume i: "i < H div b"
      then have "length (out ! i) = W div b" using shape cH cW by (simp add: is_plane_nth)
      then show "out ! i = replicate (W div b) v"
        using val [OF i] by (simp add: list_eq_iff_nth_eq)
    qed
    ultimately show ?thesis by (simp add: list_eq_iff_nth_eq)
  qed
  show ?thesis using run shape px uni unfolding b_def by blast
qed

theorem downsample_box_zero_padded_witness:
  "downsample_image [[7, 7], [7, 7], [7, 7], [7, 7]] 2 ''box'' = Inr [[7], [7]]
   \<and> (\<exists>out. downsample_image [[1, 2, 3], [4, 5, 6], [7, 8, 9]] 2 ''box'' = Inr out
          \<and> is_plane 2 2 out \<and> out ! 0 ! 1 = (3 + 6) div 4)"
proof -
  let ?u = "[[7, 7], [7, 7], [7, 7], [7, 7::nat]]"
  let ?q = "[[1, 2, 3], [4, 5, 6], [7, 8, 9::nat]]"
  have p1: "is_plane 4 2 ?u" and p2: "is_plane 3 3 ?q"
    by (simp_all add: is_plane_def)
  have f: "(1::int) \<le> 2" by simp
  have u: "?u = replicate 4 (replicate 2 7)" by code_simp
  have r: "replicate (4 div nat 2) (replicate (2 div nat 2) (7::nat)) = [[7], [7]]" by code_simp
  have d: "nat 2 dvd (4::nat)" "nat 2 dvd (2::nat)" by simp_all
  have c: "ceil_div 3 (nat 2) = 2" by (simp add: ceil_div_def)
  have b: "block_sum (nat 2) ?q 0 1 div (nat 2 * nat 2) = (3 + 6) div 4" by code_simp
  obtain o1 where o1: "downsample_image ?u 2 ''box'' = Inr o1"
    and e1: "?u = replicate 4 (replicate 2 7) \<and> nat 2 dvd 4 \<and> nat 2 dvd 2
               \<longrightarrow> o1 = replicate (4 div nat 2) (replicate (2 div nat 2) 7)"
    using downsample_box_zero_padded [of 2 4 2 ?u 7, OF f p1] by blast
  have "o1 = [[7], [7]]" using e1 u d r by blast
  with o1 have first: "downsample_image ?u 2 ''box'' = Inr [[7], [7]]" by simp
  obtain o2 where o2: "downsample_image ?q 2 ''box'' = Inr o2"
    and s2: "is_plane (ceil_div 3 (nat 2)) (ceil_div 3 (nat 2)) o2"
    and e2: "\<forall>i<ceil_div 3 (nat 2). \<forall>j<ceil_div 3 (nat 2).
               o2 ! i ! j = block_sum (nat 2) ?q i j div (nat 2 * nat 2)"
    using downsample_box_zero_padded [of 2 3 3 ?q 0, OF f p2] by blast
  have "o2 ! 0 ! 1 = (3 + 6) div 4" using e2 b unfolding c by simp
  with o2 s2 first show ?thesis unfolding c by blast
qed

text \<open>
  The claim C1 as written fails on a uniform 3 x 3 plane of value 100 and factor 2: the
  partial blocks at the right and bottom edge are averaged with the padding zeros, so the
  output holds 50 and 25 where the claim promises 100.
\<close>

theorem downsample_box_uniform_counterexample:
  "downsample_image [[100, 100, 100], [100, 100, 100], [100, 100, 100]] 2 ''box''
     = Inr [[100, 50], [50, 25]]"
  by code_simp

subsection \<open>Output shape and the identity at factor 1\<close>

text \<open>
  Claim C4. For every plane of shape \<open>(H, W)\<close>, every factor \<open>f \<ge> 1\<close> and every method
  string (so for block-mean and for decimation), \<^verbatim>\<open>_downsample_image\<close> returns a plane of
  shape \<open>(ceil(H/f), ceil(W/f))\<close>; and for factor 1 it returns the input plane.
\<close>

theorem downsample_image_shape:
  assumes f: "1 \<le> f" and p: "is_plane H W img"
  shows "(\<exists>out. downsample_image img f m = Inr out
            \<and> is_plane (ceil_div H (nat f)) (ceil_div W (nat f)) out)
         \<and> downsample_image img 1 m = Inr img"
  using downsample_image_ok [OF f p, of m] by (simp add: downsample_image_def)

theorem downsample_image_shape_witness:
  "(\<exists>out. downsample_image [[1, 2, 3], [4, 5, 6], [7, 8, 9]] 2 ''box'' = Inr out
       \<and> is_plane 2 2 out)
   \<and> (\<exists>out. downsample_image [[1, 2, 3], [4, 5, 6], [7, 8, 9]] 2 ''nearest neighbor'' = Inr out
       \<and> is_plane 2 2 out)
   \<and> downsample_image [[1, 2, 3], [4, 5, 6], [7, 8, 9]] 1 ''box'' = Inr [[1, 2, 3], [4, 5, 6], [7, 8, 9]]"
proof -
  have p: "is_plane 3 3 [[1, 2, 3], [4, 5, 6], [7, 8, 9::nat]]"
    by (simp add: is_plane_def)
  have c: "ceil_div 3 2 = 2" by (simp add: ceil_div_def)
  show ?thesis
    using downsample_image_shape [of 2 3 3 _ "''box''", OF _ p]
      downsample_image_shape [of 2 3 3 _ "''nearest neighbor''", OF _ p]
    by (simp add: c)
qed

subsection \<open>Factors below 1\<close>

text \<open>
  Claim C5, as amended. The claim as written says that every factor below 1 fails for
  both methods; the code has no check of its own, and a negative step is a valid slice.
  What holds, for every plane of shape \<open>(H, W)\<close> and every factor \<open>f < 1\<close>: the block-mean
  method fails with \<^verbatim>\<open>ValueError\<close> (raised by the library); any other method fails with
  \<^verbatim>\<open>ValueError\<close> for \<open>f = 0\<close> (zero slice step); and for \<open>f < 0\<close> any other method
  raises nothing and returns the plane of shape \<open>(ceil(H/|f|), ceil(W/|f|))\<close> whose pixel
  \<open>(i, j)\<close> is the input pixel \<open>(H - 1 - i * |f|, W - 1 - j * |f|)\<close>.
\<close>

theorem downsample_image_factor_below_one:
  assumes f: "f < 1" and p: "is_plane H W img"
  shows "downsample_image img f ''box'' = Inl ValueError
         \<and> (m \<noteq> ''box'' \<and> f = 0 \<longrightarrow> downsample_image img f m = Inl ValueError)
         \<and> (m \<noteq> ''box'' \<and> f < 0 \<longrightarrow>
              (\<exists>out. downsample_image img f m = Inr out
                 \<and> is_plane (ceil_div H (nat (- f))) (ceil_div W (nat (- f))) out
                 \<and> (\<forall>i<ceil_div H (nat (- f)). \<forall>j<ceil_div W (nat (- f)).
                       out ! i ! j = img ! (H - 1 - i * nat (- f)) ! (W - 1 - j * nat (- f)))))"
proof (intro conjI impI)
  show "downsample_image img f ''box'' = Inl ValueError"
    using f by (simp add: downsample_image_def downscale_local_mean_def)
  show "downsample_image img f m = Inl ValueError" if "m \<noteq> ''box'' \<and> f = 0"
    using that by (simp add: downsample_image_def strided_def)
  show "\<exists>out. downsample_image img f m = Inr out
          \<and> is_plane (ceil_div H (nat (- f))) (ceil_div W (nat (- f))) out
          \<and> (\<forall>i<ceil_div H (nat (- f)). \<forall>j<ceil_div W (nat (- f)).
                out ! i ! j = img ! (H - 1 - i * nat (- f)) ! (W - 1 - j * nat (- f)))"
    if a: "m \<noteq> ''box'' \<and> f < 0"
  proof -
    define k where "k = nat (- f)"
    define rimg where "rimg = map rev (rev img)"
    have k: "0 < k" using a by (simp add: k_def)
    have rp: "is_plane H W rimg" unfolding rimg_def using p by (rule is_plane_rev)
    have run: "downsample_image img f m = Inr (map (every_nth k) (every_nth k rimg))"
      using a by (simp add: downsample_image_def strided_neg k_def rimg_def)
    have px: "map (every_nth k) (every_nth k rimg) ! i ! j = img ! (H - 1 - i * k) ! (W - 1 - j * k)"
      if i: "i < ceil_div H k" and j: "j < ceil_div W k" for i j
    proof -
      have ik: "i * k < H" and jk: "j * k < W" using i j k by (simp_all add: less_ceil_div_iff)
      have h: "length img = H" using p by (simp add: is_plane_def)
      have "rimg ! (i * k) = rev (img ! (H - Suc (i * k)))"
        using ik h by (simp add: rimg_def rev_nth)
      moreover have "length (img ! (H - Suc (i * k))) = W"
        using p ik by (simp add: is_plane_nth)
      ultimately have "rimg ! (i * k) ! (j * k) = img ! (H - Suc (i * k)) ! (W - Suc (j * k))"
        using jk by (simp add: rev_nth)
      then show ?thesis using strided_rows(2) [OF k rp i j] by simp
    qed
    show ?thesis using run strided_rows(1) [OF k rp] px unfolding k_def by blast
  qed
qed

theorem downsample_image_factor_below_one_witness:
  "downsample_image [[1, 2], [3, 4]] 0 ''box'' = Inl ValueError
   \<and> downsample_image [[1, 2], [3, 4]] 0 ''nearest neighbor'' = Inl ValueError
   \<and> downsample_image [[1, 2], [3, 4]] (- 1) ''box'' = Inl ValueError
   \<and> (\<exists>out. downsample_image [[1, 2], [3, 4]] (- 1) ''nearest neighbor'' = Inr out
         \<and> is_plane 2 2 out \<and> out ! 0 ! 0 = 4 \<and> out ! 0 ! 1 = 3 \<and> out ! 1 ! 0 = 2 \<and> out ! 1 ! 1 = 1)"
proof -
  have p: "is_plane 2 2 [[1, 2], [3, 4::nat]]" by (simp add: is_plane_def)
  have c: "ceil_div 2 (Suc 0) = 2" by (simp add: ceil_div_def)
  show ?thesis
    using downsample_image_factor_below_one [of 0 2 2 _ "''nearest neighbor''", OF _ p]
      downsample_image_factor_below_one [of "- 1" 2 2 _ "''nearest neighbor''", OF _ p]
    by (auto simp: c)
qed

text \<open>
  The claim C5 as written fails for decimation with factor -1: no error is raised, the
  plane comes back with its rows and columns reversed.
\<close>

theorem downsample_image_negative_factor_counterexample:
  "downsample_image [[1, 2], [3, 4]] (- 1) ''nearest neighbor'' = Inr [[4, 3], [2, 1]]"
  by code_simp

subsection \<open>Methods other than \<^verbatim>\<open>'box'\<close>\<close>

text \<open>
  Claim C10. For every plane of shape \<open>(H, W)\<close>, every factor \<open>f \<ge> 2\<close> and every method
  string other than \<^verbatim>\<open>'box'\<close> (a misspelt or unknown name included),
  \<^verbatim>\<open>_downsample_image\<close> raises nothing and returns the decimated plane: shape
  \<open>(ceil(H/f), ceil(W/f))\<close>, pixel \<open>(i, j)\<close> equal to the input pixel \<open>(i * f, j * f)\<close>.
\<close>

theorem downsample_image_other_method:
  assumes f: "2 \<le> f" and m: "m \<noteq> ''box''" and p: "is_plane H W img"
  shows "\<exists>out. downsample_image img f m = Inr out
           \<and> is_plane (ceil_div H (nat f)) (ceil_div W (nat f)) out
           \<and> (\<forall>i<ceil_div H (nat f). \<forall>j<ceil_div W (nat f).
                 out ! i ! j = img ! (i * nat f) ! (j * nat f))"
proof -
  have k: "0 < nat f" using f by simp
  have "downsample_image img f m = Inr (map (every_nth (nat f)) (every_nth (nat f) img))"
    using f m by (simp add: downsample_image_def strided_pos)
  then show ?thesis using strided_rows [OF k p] by blast
qed

theorem downsample_image_other_method_witness:
  "\<exists>out. downsample_image [[1, 2, 3], [4, 5, 6], [7, 8, 9]] 2 ''boxx'' = Inr out
     \<and> is_plane 2 2 out
     \<and> out ! 0 ! 0 = 1 \<and> out ! 0 ! 1 = 3 \<and> out ! 1 ! 0 = 7 \<and> out ! 1 ! 1 = 9"
proof -
  have p: "is_plane 3 3 [[1, 2, 3], [4, 5, 6], [7, 8, 9::nat]]"
    by (simp add: is_plane_def)
  have c: "ceil_div 3 2 = 2" by (simp add: ceil_div_def)
  show ?thesis
    using downsample_image_other_method [of 2 "''boxx''" 3 3, OF _ _ p]
    by (auto simp: c)
qed

section \<open>Properties of the tile sequence\<close>

lemma range_from_mult:
  "0 < step \<Longrightarrow> y = a * step \<Longrightarrow>
   range_from y stop step = map (\<lambda>i. i * step) [a..<ceil_div stop step]"
proof (induction y stop step arbitrary: a rule: range_from.induct)
  case (1 y stop step)
  show ?case
  proof (cases "y < stop")
    case True
    then have a: "a < ceil_div stop step" using 1(2,3) by (simp add: less_ceil_div_iff)
    have "range_from (y + step) stop step = map (\<lambda>i. i * step) [Suc a..<ceil_div stop step]"
      by (rule 1(1) [where a = "Suc a"]) (use True 1(2,3) in simp_all)
    then show ?thesis
      using True 1(2) 1(3) a by (subst range_from.simps) (simp add: upt_conv_Cons)
  next
    case False
    then have "\<not> a < ceil_div stop step" using 1(2,3) by (simp add: less_ceil_div_iff)
    then show ?thesis using False by (subst range_from.simps) simp
  qed
qed

lemma range0_pos:
  "0 < step \<Longrightarrow> range0 stop step = Inr (map (\<lambda>i. i * nat step) [0..<ceil_div stop (nat step)])"
  using range_from_mult [of "nat step" 0 0 stop] by (simp add: range0_def)

lemma tile_positions_pos:
  assumes "0 < th" "0 < tw"
  shows "tile_positions H W (th, tw)
           = Inr (concat (map (\<lambda>a. map (\<lambda>b. (a * nat th, b * nat tw)) [0..<ceil_div W (nat tw)])
                    [0..<ceil_div H (nat th)]))"
  using assms by (simp add: tile_positions_def range0_pos comp_def)

lemma length_concat_grid:
  "length (concat (map (\<lambda>a. map (g a) [0..<nc]) xs)) = length xs * nc"
  by (induction xs) simp_all

lemma nth_concat_grid:
  "a < length xs \<Longrightarrow> b < nc \<Longrightarrow>
   concat (map (\<lambda>a. map (g a) [0..<nc]) xs) ! (a * nc + b) = g (xs ! a) b"
proof (induction xs arbitrary: a)
  case Nil
  then show ?case by simp
next
  case (Cons x xs)
  show ?case
  proof (cases a)
    case 0
    then show ?thesis using Cons.prems by (simp add: nth_append)
  next
    case (Suc a')
    then show ?thesis using Cons by (simp add: nth_append)
  qed
qed

lemma crop_shape:
  assumes "is_plane H W img"
  shows "is_plane (min h (H - y)) (min w (W - x)) (crop img y x h w)"
  using assms by (auto simp: crop_def is_plane_def list_all_iff dest!: in_set_takeD in_set_dropD)

lemma crop_nth:
  assumes "is_plane H W img" "dr < min h (H - y)" "dc < min w (W - x)"
  shows "crop img y x h w ! dr ! dc = img ! (y + dr) ! (x + dc)"
proof -
  have h: "length img = H" and r: "y + dr < H" and c: "x + dc < W"
    using assms by (auto simp: is_plane_nth)
  have w: "length (img ! (y + dr)) = W" using assms(1) r by (simp add: is_plane_nth)
  have "crop img y x h w ! dr = take w (drop x (img ! (y + dr)))"
    using assms(2) h r by (auto simp: crop_def)
  then show ?thesis using assms(3) w c by auto
qed

subsection \<open>Pasting a tile\<close>

lemma paste_row_length:
  "x + length t \<le> length row \<Longrightarrow> length (paste_row x t row) = length row"
  by (simp add: paste_row_def)

lemma paste_row_nth:
  "x + length t \<le> length row \<Longrightarrow> c < length row \<Longrightarrow>
   paste_row x t row ! c = (if x \<le> c \<and> c < x + length t then t ! (c - x) else row ! c)"
  by (auto simp: paste_row_def nth_append)

lemma paste_length:
  "y + length tile \<le> length canvas \<Longrightarrow> length (paste canvas (y, x) tile) = length canvas"
  by (simp add: paste_def)

lemma paste_row_at:
  assumes "y + length tile \<le> length canvas" "r < length canvas"
  shows "paste canvas (y, x) tile ! r
           = (if y \<le> r \<and> r < y + length tile
              then paste_row x (tile ! (r - y)) (canvas ! r) else canvas ! r)"
  using assms by (auto simp: paste_def nth_append)

lemma paste_plane:
  assumes cv: "is_plane H W canvas" and t: "is_plane h w tile"
    and y: "y + h \<le> H" and x: "x + w \<le> W"
  shows "is_plane H W (paste canvas (y, x) tile)"
    and "r < H \<Longrightarrow> c < W \<Longrightarrow>
         paste canvas (y, x) tile ! r ! c
           = (if y \<le> r \<and> r < y + h \<and> x \<le> c \<and> c < x + w
              then tile ! (r - y) ! (c - x) else canvas ! r ! c)"
proof -
  have lc: "length canvas = H" and lt: "length tile = h"
    using cv t by (simp_all add: is_plane_nth)
  have rows: "length (canvas ! r) = W" if "r < H" for r
    using cv that by (simp add: is_plane_nth)
  have trows: "length (tile ! d) = w" if "d < h" for d
    using t that by (simp add: is_plane_nth)
  have row: "paste canvas (y, x) tile ! r
           = (if y \<le> r \<and> r < y + h
              then paste_row x (tile ! (r - y)) (canvas ! r) else canvas ! r)" if "r < H" for r
    using paste_row_at [of y tile canvas r x] y that lc lt by simp
  have len: "length (paste canvas (y, x) tile ! r) = W" if "r < H" for r
  proof (cases "y \<le> r \<and> r < y + h")
    case True
    then have "r - y < h" by auto
    then show ?thesis using True that x row [OF that] rows [OF that] trows [of "r - y"]
      by (simp add: paste_row_length)
  next
    case False
    then show ?thesis using that row [OF that] rows [OF that] by auto
  qed
  show "is_plane H W (paste canvas (y, x) tile)"
    using len y lc lt by (simp add: is_plane_nth paste_length)
  show "paste canvas (y, x) tile ! r ! c
           = (if y \<le> r \<and> r < y + h \<and> x \<le> c \<and> c < x + w
              then tile ! (r - y) ! (c - x) else canvas ! r ! c)" if r: "r < H" and c: "c < W"
  proof (cases "y \<le> r \<and> r < y + h")
    case True
    then have d: "r - y < h" by auto
    show ?thesis
      using True x c row [OF r] rows [OF r] trows [OF d]
        paste_row_nth [of x "tile ! (r - y)" "canvas ! r" c]
      by auto
  next
    case False
    then show ?thesis using row [OF r] by auto
  qed
qed

lemma paste_crop:
  assumes img: "is_plane H W img" and cv: "is_plane H W canvas" and y: "y < H" and x: "x < W"
  shows "is_plane H W (paste canvas (y, x) (crop img y x th tw))"
    and "r < H \<Longrightarrow> c < W \<Longrightarrow>
         paste canvas (y, x) (crop img y x th tw) ! r ! c
           = (if y \<le> r \<and> r < y + th \<and> x \<le> c \<and> c < x + tw
              then img ! r ! c else canvas ! r ! c)"
proof -
  define h where "h = min th (H - y)"
  define w where "w = min tw (W - x)"
  have t: "is_plane h w (crop img y x th tw)"
    unfolding h_def w_def using img by (rule crop_shape)
  have yh: "y + h \<le> H" and xw: "x + w \<le> W" using y x by (simp_all add: h_def w_def)
  show "is_plane H W (paste canvas (y, x) (crop img y x th tw))"
    using cv t yh xw by (rule paste_plane(1))
  show "paste canvas (y, x) (crop img y x th tw) ! r ! c
           = (if y \<le> r \<and> r < y + th \<and> x \<le> c \<and> c < x + tw
              then img ! r ! c else canvas ! r ! c)" if r: "r < H" and c: "c < W"
  proof (cases "y \<le> r \<and> r < y + th \<and> x \<le> c \<and> c < x + tw")
    case True
    then have d: "r - y < min th (H - y)" "c - x < min tw (W - x)" using r c by auto
    have inside: "y \<le> r \<and> r < y + h \<and> x \<le> c \<and> c < x + w"
      using True r c by (auto simp: h_def w_def)
    have "paste canvas (y, x) (crop img y x th tw) ! r ! c
            = crop img y x th tw ! (r - y) ! (c - x)"
      using paste_plane(2) [OF cv t yh xw r c] inside by simp
    also have "\<dots> = img ! (y + (r - y)) ! (x + (c - x))"
      using img d by (rule crop_nth)
    finally show ?thesis using True by simp
  next
    case False
    then have nin: "\<not> (y \<le> r \<and> r < y + h \<and> x \<le> c \<and> c < x + w)"
      by (auto simp: h_def w_def)
    have "paste canvas (y, x) (crop img y x th tw) ! r ! c = canvas ! r ! c"
      using paste_plane(2) [OF cv t yh xw r c] by (simp only: nin if_False)
    then show ?thesis by (simp only: False if_False)
  qed
qed

lemma place_tiles_crops:
  assumes img: "is_plane H W img"
  shows "is_plane H W canvas \<Longrightarrow> \<forall>p\<in>set ps. fst p < H \<and> snd p < W \<Longrightarrow>
         is_plane H W (place_tiles canvas (map (\<lambda>p. (p, crop img (fst p) (snd p) th tw)) ps))
         \<and> (\<forall>r<H. \<forall>c<W.
               canvas ! r ! c = img ! r ! c
               \<or> (\<exists>p\<in>set ps. fst p \<le> r \<and> r < fst p + th \<and> snd p \<le> c \<and> c < snd p + tw)
               \<longrightarrow> place_tiles canvas (map (\<lambda>p. (p, crop img (fst p) (snd p) th tw)) ps) ! r ! c
                     = img ! r ! c)"
proof (induction ps arbitrary: canvas)
  case Nil
  then show ?case by (simp add: place_tiles_def)
next
  case (Cons p ps)
  obtain y x where p: "p = (y, x)" by (cases p)
  define canvas' where "canvas' = paste canvas (y, x) (crop img y x th tw)"
  have yx: "y < H" "x < W" using Cons.prems(2) p by simp_all
  have cv': "is_plane H W canvas'"
    unfolding canvas'_def using img Cons.prems(1) yx by (rule paste_crop(1))
  have px: "canvas' ! r ! c
           = (if y \<le> r \<and> r < y + th \<and> x \<le> c \<and> c < x + tw
              then img ! r ! c else canvas ! r ! c)" if "r < H" "c < W" for r c
    unfolding canvas'_def using img Cons.prems(1) yx that by (rule paste_crop(2))
  have step: "place_tiles canvas (map (\<lambda>p. (p, crop img (fst p) (snd p) th tw)) (p # ps))
              = place_tiles canvas' (map (\<lambda>p. (p, crop img (fst p) (snd p) th tw)) ps)"
    by (simp add: place_tiles_def p canvas'_def)
  have rest: "\<forall>p\<in>set ps. fst p < H \<and> snd p < W" using Cons.prems(2) by simp
  note IH = Cons.IH [OF cv' rest]
  show ?case unfolding step
  proof (intro conjI allI impI)
    show "is_plane H W (place_tiles canvas' (map (\<lambda>p. (p, crop img (fst p) (snd p) th tw)) ps))"
      using IH by simp
  next
    fix r c
    assume r: "r < H" and c: "c < W"
      and a: "canvas ! r ! c = img ! r ! c
              \<or> (\<exists>q\<in>set (p # ps). fst q \<le> r \<and> r < fst q + th \<and> snd q \<le> c \<and> c < snd q + tw)"
    have "canvas' ! r ! c = img ! r ! c
          \<or> (\<exists>q\<in>set ps. fst q \<le> r \<and> r < fst q + th \<and> snd q \<le> c \<and> c < snd q + tw)"
      using a px [OF r c] p by auto
    then show "place_tiles canvas' (map (\<lambda>p. (p, crop img (fst p) (snd p) th tw)) ps) ! r ! c
               = img ! r ! c"
      using IH r c by blast
  qed
qed

lemma plane_eqI:
  assumes "is_plane H W p" "is_plane H W q" "\<And>r c. r < H \<Longrightarrow> c < W \<Longrightarrow> p ! r ! c = q ! r ! c"
  shows "p = q"
  using assms by (simp add: is_plane_nth list_eq_iff_nth_eq)

lemma grid_covers:
  assumes th: "0 < th" and tw: "0 < tw" and r: "r < H" and c: "c < W"
  shows "\<exists>p\<in>set (concat (map (\<lambda>a. map (\<lambda>b. (a * th, b * tw)) [0..<ceil_div W tw])
                    [0..<ceil_div H th])).
           fst p \<le> r \<and> r < fst p + th \<and> snd p \<le> c \<and> c < snd p + tw"
proof -
  have lo: "r div th * th \<le> r" "c div tw * tw \<le> c" by simp_all
  have "r mod th < th" "c mod tw < tw" using th tw by simp_all
  moreover have "r = r div th * th + r mod th" "c = c div tw * tw + c mod tw" by simp_all
  ultimately have hi: "r < r div th * th + th" "c < c div tw * tw + tw" by linarith+
  have "r div th * th < H" "c div tw * tw < W" using lo r c by linarith+
  then have a: "r div th < ceil_div H th" and b: "c div tw < ceil_div W tw"
    using th tw by (simp_all add: less_ceil_div_iff)
  have mem: "(r div th * th, c div tw * tw)
               \<in> set (concat (map (\<lambda>a. map (\<lambda>b. (a * th, b * tw)) [0..<ceil_div W tw])
                          [0..<ceil_div H th]))"
    using a b by force
  show ?thesis using lo hi by (intro bexI [OF _ mem]) simp
qed

lemma grid_in_bounds:
  assumes th: "0 < th" and tw: "0 < tw"
  shows "\<forall>p\<in>set (concat (map (\<lambda>a. map (\<lambda>b. (a * th, b * tw)) [0..<ceil_div W tw])
                    [0..<ceil_div H th])). fst p < H \<and> snd p < W"
  using assms by (auto simp: less_ceil_div_iff)

lemma ceil_div_zero: "0 < b \<Longrightarrow> ceil_div 0 b = 0"
  by (simp add: ceil_div_def)

lemma tile_positions_plane:
  assumes p: "is_plane H W img" and th: "0 < th" and tw: "0 < tw"
  shows "tile_positions (length img) (width img) (th, tw) = tile_positions H W (th, tw)"
proof (cases "img = []")
  case True
  then have "H = 0" "length img = 0" using p by (simp_all add: is_plane_def)
  then show ?thesis using th tw by (simp add: tile_positions_pos ceil_div_zero)
next
  case False
  then have "width img = W" using p by (rule is_plane_width [rotated])
  moreover have "length img = H" using p by (simp add: is_plane_def)
  ultimately show ?thesis by simp
qed

subsection \<open>Count, order and round trip\<close>

text \<open>
  Claim C3. For every plane of shape \<open>(H, W)\<close> and all positive tile sizes \<open>th\<close>, \<open>tw\<close>,
  the tile sequence has exactly \<open>ceil(H/th) * ceil(W/tw)\<close> tiles; the tile with number
  \<open>a * ceil(W/tw) + b\<close> (row-major: \<open>y\<close> outer, \<open>x\<close> inner) is the one cut at position
  \<open>(a * th, b * tw)\<close>, its shape is clipped to what the plane has left
  (\<open>min th (H - y)\<close> by \<open>min tw (W - x)\<close>, never padded) and its pixels are the plane's
  pixels at that place; and pasting every tile at its position into any canvas of shape
  \<open>(H, W)\<close> gives the plane back.
\<close>

theorem plane_tiles_roundtrip:
  assumes p: "is_plane H W img" and th: "0 < th" and tw: "0 < tw"
  shows "\<exists>ps ts. tile_positions H W (th, tw) = Inr ps \<and> plane_tiles img (th, tw) = Inr ts
           \<and> length ts = ceil_div H (nat th) * ceil_div W (nat tw)
           \<and> length ps = length ts
           \<and> (\<forall>a<ceil_div H (nat th). \<forall>b<ceil_div W (nat tw).
                 ps ! (a * ceil_div W (nat tw) + b) = (a * nat th, b * nat tw)
                 \<and> is_plane (min (nat th) (H - a * nat th)) (min (nat tw) (W - b * nat tw))
                      (ts ! (a * ceil_div W (nat tw) + b))
                 \<and> (\<forall>dr<min (nat th) (H - a * nat th). \<forall>dc<min (nat tw) (W - b * nat tw).
                       ts ! (a * ceil_div W (nat tw) + b) ! dr ! dc
                         = img ! (a * nat th + dr) ! (b * nat tw + dc)))
           \<and> (\<forall>canvas. is_plane H W canvas \<longrightarrow> place_tiles canvas (zip ps ts) = img)"
proof -
  define h where "h = nat th"
  define w where "w = nat tw"
  define nr where "nr = ceil_div H h"
  define nc where "nc = ceil_div W w"
  define ps where "ps = concat (map (\<lambda>a. map (\<lambda>b. (a * h, b * w)) [0..<nc]) [0..<nr])"
  define ts where "ts = map (\<lambda>q. crop img (fst q) (snd q) h w) ps"
  have h: "0 < h" and w: "0 < w" using th tw by (simp_all add: h_def w_def)
  have pos: "tile_positions H W (th, tw) = Inr ps"
    using th tw by (simp add: tile_positions_pos ps_def h_def w_def nr_def nc_def)
  have tiles: "plane_tiles img (th, tw) = Inr ts"
    using pos tile_positions_plane [OF p th tw]
    by (simp add: plane_tiles_def ts_def h_def w_def case_prod_unfold)
  have len_ps: "length ps = nr * nc"
    by (simp add: ps_def length_concat_grid)
  have len_ts: "length ts = nr * nc"
    by (simp add: ts_def len_ps)
  have nth_ps: "ps ! (a * nc + b) = (a * h, b * w)" if "a < nr" "b < nc" for a b
    using that nth_concat_grid [of a "[0..<nr]" b nc "\<lambda>a b. (a * h, b * w)"]
    by (simp add: ps_def)
  have idx: "a * nc + b < nr * nc" if "a < nr" "b < nc" for a b
  proof -
    have "a * nc + b < a * nc + nc" using that by simp
    also have "\<dots> = Suc a * nc" by simp
    also have "\<dots> \<le> nr * nc" using that by (intro mult_le_mono1) simp
    finally show ?thesis .
  qed
  have nth_ts: "ts ! (a * nc + b) = crop img (a * h) (b * w) h w" if "a < nr" "b < nc" for a b
    using that idx [OF that] nth_ps [OF that] by (simp add: ts_def len_ps)
  have zip: "zip ps ts = map (\<lambda>q. (q, crop img (fst q) (snd q) h w)) ps"
    by (simp add: ts_def zip_map2 zip_same_conv_map)
  have bounds: "\<forall>q\<in>set ps. fst q < H \<and> snd q < W"
    unfolding ps_def nr_def nc_def using h w by (rule grid_in_bounds)
  have rt: "place_tiles canvas (zip ps ts) = img" if cv: "is_plane H W canvas" for canvas
  proof (rule plane_eqI)
    note placed = place_tiles_crops [OF p cv bounds, of h w, folded zip]
    show "is_plane H W (place_tiles canvas (zip ps ts))" using placed by simp
    show "is_plane H W img" by (rule p)
    fix r c assume r: "r < H" and c: "c < W"
    have "\<exists>q\<in>set ps. fst q \<le> r \<and> r < fst q + h \<and> snd q \<le> c \<and> c < snd q + w"
      unfolding ps_def nr_def nc_def using h w r c by (rule grid_covers)
    then show "place_tiles canvas (zip ps ts) ! r ! c = img ! r ! c"
      using placed r c by blast
  qed
  have each: "ps ! (a * nc + b) = (a * h, b * w)
        \<and> is_plane (min h (H - a * h)) (min w (W - b * w)) (ts ! (a * nc + b))
        \<and> (\<forall>dr<min h (H - a * h). \<forall>dc<min w (W - b * w).
              ts ! (a * nc + b) ! dr ! dc = img ! (a * h + dr) ! (b * w + dc))"
    if ab: "a < nr" "b < nc" for a b
    using nth_ps [OF ab] nth_ts [OF ab] crop_shape [OF p, of h "a * h" w "b * w"]
      crop_nth [OF p, of _ h "a * h" _ w "b * w"]
    by simp
  have "tile_positions H W (th, tw) = Inr ps \<and> plane_tiles img (th, tw) = Inr ts
          \<and> length ts = nr * nc
          \<and> length ps = length ts
          \<and> (\<forall>a<nr. \<forall>b<nc.
                 ps ! (a * nc + b) = (a * h, b * w)
                 \<and> is_plane (min h (H - a * h)) (min w (W - b * w)) (ts ! (a * nc + b))
                 \<and> (\<forall>dr<min h (H - a * h). \<forall>dc<min w (W - b * w).
                       ts ! (a * nc + b) ! dr ! dc = img ! (a * h + dr) ! (b * w + dc)))
          \<and> (\<forall>canvas. is_plane H W canvas \<longrightarrow> place_tiles canvas (zip ps ts) = img)"
    using pos tiles len_ts len_ps each rt by (intro conjI allI impI) simp_all
  then show ?thesis unfolding h_def w_def nr_def nc_def by (intro exI)
qed

theorem plane_tiles_roundtrip_witness:
  "plane_tiles [[1, 2, 3, 4, 5], [6, 7, 8, 9, 10], [11, 12, 13, 14, 15::nat]] (2, 2)
     = Inr [[[1, 2], [6, 7]], [[3, 4], [8, 9]], [[5], [10]], [[11, 12]], [[13, 14]], [[15]]]
   \<and> tile_positions 3 5 (2, 2) = Inr [(0, 0), (0, 2), (0, 4), (2, 0), (2, 2), (2, 4)]
   \<and> place_tiles [[0, 0, 0, 0, 0], [0, 0, 0, 0, 0], [0, 0, 0, 0, 0]]
        (zip [(0, 0), (0, 2), (0, 4), (2, 0), (2, 2), (2, 4)]
           [[[1, 2], [6, 7]], [[3, 4], [8, 9]], [[5], [10]], [[11, 12]], [[13, 14]], [[15]]])
       = [[1, 2, 3, 4, 5], [6, 7, 8, 9, 10], [11, 12, 13, 14, 15::nat]]"
proof -
  let ?img = "[[1, 2, 3, 4, 5], [6, 7, 8, 9, 10], [11, 12, 13, 14, 15::nat]]"
  let ?canvas = "[[0, 0, 0, 0, 0], [0, 0, 0, 0, 0], [0, 0, 0, 0, 0::nat]]"
  have p: "is_plane 3 5 ?img" and cv: "is_plane 3 5 ?canvas" by (simp_all add: is_plane_def)
  have t: "(0::int) < 2" by simp
  have e1: "plane_tiles ?img (2, 2)
     = Inr [[[1, 2], [6, 7]], [[3, 4], [8, 9]], [[5], [10]], [[11, 12]], [[13, 14]], [[15]]]"
    by code_simp
  have e2: "tile_positions 3 5 (2, 2) = Inr [(0, 0), (0, 2), (0, 4), (2, 0), (2, 2), (2, 4)]"
    by code_simp
  have "\<exists>ps ts. tile_positions 3 5 (2, 2) = Inr ps \<and> plane_tiles ?img (2, 2) = Inr ts
          \<and> (\<forall>canvas. is_plane 3 5 canvas \<longrightarrow> place_tiles canvas (zip ps ts) = ?img)"
    using plane_tiles_roundtrip [OF p t t] by blast
  then obtain ps ts where a: "tile_positions 3 5 (2, 2) = Inr ps"
    and b: "plane_tiles ?img (2, 2) = Inr ts"
    and rt: "\<forall>canvas. is_plane 3 5 canvas \<longrightarrow> place_tiles canvas (zip ps ts) = ?img"
    by (elim exE conjE)
  have ps: "ps = [(0, 0), (0, 2), (0, 4), (2, 0), (2, 2), (2, 4)]"
    using a unfolding e2 by simp
  have ts: "ts = [[[1, 2], [6, 7]], [[3, 4], [8, 9]], [[5], [10]], [[11, 12]], [[13, 14]], [[15]]]"
    using b unfolding e1 by simp
  have "place_tiles ?canvas (zip ps ts) = ?img" using rt cv by (simp only:)
  then show ?thesis unfolding ps ts using e1 e2 by (intro conjI)
qed

section \<open>Properties of the writer\<close>

subsection \<open>What the generator yields for a well-formed stack\<close>





subsection \<open>The float quotient\<close>





text \<open>
  Two more values of the float quotient: \<^verbatim>\<open>math.ceil(2050 / 2**1087)\<close> is 0, and
  \<^verbatim>\<open>math.ceil((2**53 + 1) / 2)\<close> is \<open>2^52\<close>, one less than the ceiling of the exact
  quotient, as \<open>2^53 + 1\<close> is not a float.
\<close>

lemma ceil_true_div_pow2_underflow_2050: "ceil_true_div_pow2 2050 1087 = Inr 0"
  by (simp add: ceil_true_div_pow2_def true_div_pow2_def bit_length.simps math_ceil_def
      round_half_even_div_def ceil_div_def)

lemma ceil_true_div_pow2_rounded: "ceil_true_div_pow2 (2 ^ 53 + 1) 1 = Inr (2 ^ 52)"
  by (simp add: ceil_true_div_pow2_def true_div_pow2_def bit_length.simps math_ceil_def
      round_half_even_div_def ceil_div_def)



subsection \<open>The write calls\<close>


lemma tif_write_bad_tile:
  "\<not> tile_shape_ok (opt_tile options) \<Longrightarrow>
   tif_write known_compression tif data shp subifds subfiletype options = (Some ValueError, tif)"
  by (simp add: tif_write_def)




text \<open>
  What the first \<^verbatim>\<open>tif.write\<close> refuses: with accepted channel names, a tile size that is
  not a positive multiple of 16, an unknown compression, a stack with no channel, no
  row or no column, or a level count below 1 (a negative \<^verbatim>\<open>subifds\<close>) make the writer
  fail with \<^verbatim>\<open>ValueError\<close>; the destination is left closed with its header and no image
  entry.
\<close>

lemma write_refused:
  assumes md: "make_ome_metadata str s names ps = Inr md"
    and bad: "\<not> tile_shape_ok (tile_size, tile_size)
              \<or> \<not> compression_ok known_compression compression
              \<or> \<not> shape_ok (fst (shape s), fst (snd (shape s)), snd (snd (shape s)), 1)
              \<or> level_count < 1"
  shows "write_pyramidal_ome_tiff str known_compression s path names ps compression tile_size
           level_count m fs
         = (Some ValueError,
            \<lparr>parents_made = parents_made fs @ [path],
             files = (files fs)(path \<mapsto> \<lparr>header_bytes = 16, pages = [], closed = True\<rparr>)\<rparr>)"
proof -
  obtain C H W where sh: "shape s = (C, H, W)" by (cases "shape s")
  have su: "level_count < 1 \<Longrightarrow> \<not> subifds_ok (Some (level_count - 1))"
    by (simp add: subifds_ok_def)
  show ?thesis
    using bad su unfolding write_pyramidal_ome_tiff_def md sh Let_def
    by (auto simp: tif_write_def TiffWriter_def TiffWriter_exit_def mkdir_parents_def
        bigtiff_header_size_def)
qed

subsection \<open>A zero tile size\<close>

text \<open>
  Claim C2, as amended. The claim as written says that a zero tile size fails before any
  byte reaches the destination; the function checks nothing itself, and the first place
  that looks at the tile size is the first \<^verbatim>\<open>tif.write\<close>, inside the \<^verbatim>\<open>with\<close> block that
  has already created the file. What holds, for every stack and every value of the other
  parameters, when \<^verbatim>\<open>tile_size = 0\<close>: if the metadata builder raises (the channel names
  do not fit), that exception leaves the function and the file system is untouched;
  otherwise the function fails with \<^verbatim>\<open>ValueError\<close> after it has made the parent
  directories and opened the destination, which is left closed, holding the 16 header
  bytes and no image entry.
\<close>

theorem write_tile_size_zero:
  "(make_ome_metadata str s names ps = Inl e \<longrightarrow>
      write_pyramidal_ome_tiff str known_compression s path names ps compression 0 max_levels m fs
        = (Some e, fs))
   \<and> (make_ome_metadata str s names ps = Inr md \<longrightarrow>
      write_pyramidal_ome_tiff str known_compression s path names ps compression 0 max_levels m fs
        = (Some ValueError,
           \<lparr>parents_made = parents_made fs @ [path],
            files = (files fs)(path \<mapsto> \<lparr>header_bytes = 16, pages = [], closed = True\<rparr>)\<rparr>))"
proof -
  have bad: "\<not> tile_shape_ok (0, 0)" by (simp add: tile_shape_ok_def)
  show ?thesis
    by (cases "shape s")
      (simp add: write_pyramidal_ome_tiff_def tif_write_bad_tile bad TiffWriter_def
        TiffWriter_exit_def mkdir_parents_def bigtiff_header_size_def)
qed

theorem write_tile_size_zero_witness:
  "write_pyramidal_ome_tiff (\<lambda>x::rat. '''') (\<lambda>c. c = ''zlib'')
      \<lparr>shape = (2, 1, 1), channels = [[[7]], [[8]]]\<rparr>
      ''out/image.tif'' (Some [''DAPI'']) None None 0 3 ''box''
      \<lparr>parents_made = [], files = Map.empty\<rparr>
     = (Some AssertionError, \<lparr>parents_made = [], files = Map.empty\<rparr>)
   \<and> write_pyramidal_ome_tiff (\<lambda>x::rat. '''') (\<lambda>c. c = ''zlib'')
      \<lparr>shape = (1, 1, 1), channels = [[[7]]]\<rparr>
      ''out/image.tif'' (Some [''DAPI'']) None None 0 3 ''box''
      \<lparr>parents_made = [], files = Map.empty\<rparr>
     = (Some ValueError,
        \<lparr>parents_made = [''out/image.tif''],
         files = [''out/image.tif'' \<mapsto> \<lparr>header_bytes = 16, pages = [], closed = True\<rparr>]\<rparr>)"
proof -
  let ?str = "\<lambda>x::rat. ''''"
  let ?kc = "\<lambda>c. c = ''zlib''"
  have m1: "make_ome_metadata ?str \<lparr>shape = (2, 1, 1), channels = [[[7]], [[8]]]\<rparr>
              (Some [''DAPI'']) None = Inl AssertionError"
    by (simp add: make_ome_metadata_def)
  obtain md where m2: "make_ome_metadata ?str \<lparr>shape = (1, 1, 1), channels = [[[7]]]\<rparr>
              (Some [''DAPI'']) None = Inr md"
    by (simp add: make_ome_metadata_def)
  show ?thesis
    using write_tile_size_zero [of ?str "\<lparr>shape = (2, 1, 1), channels = [[[7]], [[8]]]\<rparr>"
        "Some [''DAPI'']" None AssertionError ?kc "''out/image.tif''" None 3 "''box''"
        "\<lparr>parents_made = [], files = Map.empty\<rparr>" md] m1
      write_tile_size_zero [of ?str "\<lparr>shape = (1, 1, 1), channels = [[[7]]]\<rparr>"
        "Some [''DAPI'']" None AssertionError ?kc "''out/image.tif''" None 3 "''box''"
        "\<lparr>parents_made = [], files = Map.empty\<rparr>" md] m2
    by simp
qed

text \<open>
  The claim C2 as written fails on a one-pixel stack: the call fails with \<^verbatim>\<open>ValueError\<close>,
  and the destination, which did not exist before, holds the header.
\<close>

theorem write_tile_size_zero_counterexample:
  "fst (write_pyramidal_ome_tiff (\<lambda>x::rat. '''') (\<lambda>c. c = ''zlib'')
          \<lparr>shape = (1, 1, 1), channels = [[[7]]]\<rparr>
          ''out/image.tif'' None None None 0 1 ''box'' \<lparr>parents_made = [], files = Map.empty\<rparr>)
     = Some ValueError
   \<and> files (snd (write_pyramidal_ome_tiff (\<lambda>x::rat. '''') (\<lambda>c. c = ''zlib'')
          \<lparr>shape = (1, 1, 1), channels = [[[7]]]\<rparr>
          ''out/image.tif'' None None None 0 1 ''box'' \<lparr>parents_made = [], files = Map.empty\<rparr>))
        ''out/image.tif''
     = Some \<lparr>header_bytes = 16, pages = [], closed = True\<rparr>"
  by (simp add: write_pyramidal_ome_tiff_def make_ome_metadata_def tif_write_def
      tile_shape_ok_def TiffWriter_def TiffWriter_exit_def mkdir_parents_def
      bigtiff_header_size_def)

subsection \<open>The levels of the pyramid\<close>




end
